theory Spec2Isabelle
  imports Main "HOL-Library.Sublist"
begin

section \<open>CitationSleuth: the PubMed usage finder and its table renderer\<close>

text \<open>
  The development embeds \<^verbatim>\<open>src/CitationSleuth.py\<close>, class \<^verbatim>\<open>PubMedCitationSleuth\<close>:
  \<^verbatim>\<open>search_for_usages\<close> (the usage finder), \<^verbatim>\<open>fetch_article_info\<close> (one detail call and
  the field extraction) and \<^verbatim>\<open>format_top_usages_as_markdown\<close> (the renderer).

  The libraries the code calls are not part of the repository; they are modelled by what the
  code observes of them:
  \<^item> \<^verbatim>\<open>requests.get\<close> either raises or returns a response. The network is a function of
    the calls made so far and the present request, so a server may answer the same request
    differently at different times. Every call is appended to a log.
  \<^item> \<^verbatim>\<open>response.json()\<close> either raises or yields a decoded JSON value.
  \<^item> \<^verbatim>\<open>BeautifulSoup(response.content, 'xml')\<close> yields a tree of tags and text for any
    content; \<^verbatim>\<open>find\<close> is the first match in document order, a found tag is always truthy,
    \<^verbatim>\<open>.text\<close> concatenates the text below a tag.
\<close>

subsection \<open>Python values\<close>

text \<open>Exceptions the code can raise; \<open>RequestException\<close> carries whatever the transport reports.\<close>

datatype error =
    RequestException string
  | JSONDecodeError
  | AttributeError
  | TypeError
  | KeyError string

text \<open>
  Decoded JSON. Identifiers are text (\<^verbatim>\<open>article_id: str\<close>), so the arrays of the model
  hold strings; numbers only matter to the code as values that are neither a dict nor
  iterable. A dict is an association list read with \<open>map_of\<close>.
\<close>

datatype json =
    JNull
  | JBool bool
  | JNum int
  | JStr string
  | JArr "string list"
  | JObj "(string \<times> json) list"

text \<open>\<^verbatim>\<open>d.get(key, default)\<close>: only a dict has the method.\<close>

fun py_get :: "json \<Rightarrow> string \<Rightarrow> json \<Rightarrow> error + json" where
  "py_get (JObj kvs) key dflt = (case map_of kvs key of Some v \<Rightarrow> Inr v | None \<Rightarrow> Inr dflt)"
| "py_get _ key dflt = Inl AttributeError"

text \<open>
  \<^verbatim>\<open>for x in v\<close>: a list yields its elements, a string its characters, a dict its keys
  in insertion order; anything else is not iterable.
\<close>

fun py_iter :: "json \<Rightarrow> error + string list" where
  "py_iter (JArr xs) = Inr xs"
| "py_iter (JStr s) = Inr (map (\<lambda>c. [c]) s)"
| "py_iter (JObj kvs) = Inr (rev (remdups (rev (map fst kvs))))"
| "py_iter _ = Inl TypeError"

subsection \<open>Requests and responses\<close>

text \<open>A value of the \<^verbatim>\<open>params\<close> dict: text, or the integer \<^verbatim>\<open>retmax\<close>.\<close>

datatype param = PStr string | PInt int

record request =
  url :: string
  params :: "(string \<times> param) list"

text \<open>The parsed XML: text nodes, and tags with a name, attributes and children.\<close>

datatype xml = Text string | Tag string "(string \<times> string) list" "xml list"

text \<open>
  A response: its HTTP status, the outcome of \<^verbatim>\<open>response.json()\<close> (\<open>None\<close> when the body
  is not JSON and the call raises) and the tree \<^verbatim>\<open>BeautifulSoup(response.content, 'xml')\<close>
  builds.
\<close>

record response =
  status_code :: nat
  json_body :: "json option"
  soup :: "xml list"

type_synonym world = "request list \<Rightarrow> request \<Rightarrow> error + response"

text \<open>\<^verbatim>\<open>requests.get(base_url, params=params)\<close>: the call is logged, the network answers.\<close>

definition requests_get :: "world \<Rightarrow> request \<Rightarrow> request list \<Rightarrow> (error + response) \<times> request list" where
  "requests_get w req log = (w log req, log @ [req])"

text \<open>\<^verbatim>\<open>response.json()\<close>\<close>

definition response_json :: "response \<Rightarrow> error + json" where
  "response_json r = (case json_body r of None \<Rightarrow> Inl JSONDecodeError | Some j \<Rightarrow> Inr j)"

subsection \<open>BeautifulSoup\<close>

text \<open>
  \<^verbatim>\<open>soup.find(name, {key: value})\<close>: the first tag, in document order, with that name and
  that attribute value.
\<close>

fun find_tag :: "string \<Rightarrow> string \<Rightarrow> string \<Rightarrow> xml \<Rightarrow> xml option"
  and find_first :: "string \<Rightarrow> string \<Rightarrow> string \<Rightarrow> xml list \<Rightarrow> xml option" where
  "find_tag name key val (Text s) = None"
| "find_tag name key val (Tag n attrs children) =
     (if n = name \<and> map_of attrs key = Some val then Some (Tag n attrs children)
      else find_first name key val children)"
| "find_first name key val [] = None"
| "find_first name key val (x # xs) =
     (case find_tag name key val x of Some t \<Rightarrow> Some t | None \<Rightarrow> find_first name key val xs)"

text \<open>\<^verbatim>\<open>tag.text\<close>\<close>

fun get_text :: "xml \<Rightarrow> string" where
  "get_text (Text s) = s"
| "get_text (Tag n attrs children) = concat (map get_text children)"

subsection \<open>The Citation Record and \<^verbatim>\<open>fetch_article_info\<close>\<close>

text \<open>The record is a Python dict with text values, kept in the order of the dict literal.\<close>

type_synonym citation = "(string \<times> string) list"

text \<open>
  \<^verbatim>\<open>soup.find('Item', {'Name': n}).text if soup.find('Item', {'Name': n}) else "N/A"\<close>,
  the expression of lines 155 to 158, once per field.
\<close>

definition item_text :: "xml list \<Rightarrow> string \<Rightarrow> string" where
  "item_text sp n =
     (case find_first ''Item'' ''Name'' n sp of Some t \<Rightarrow> get_text t | None \<Rightarrow> ''N/A'')"

definition detail_request :: "string \<Rightarrow> request" where
  "detail_request article_id =
     \<lparr>url = ''https://eutils.ncbi.nlm.nih.gov/entrez/eutils/esummary.fcgi'',
      params = [(''db'', PStr ''pubmed''), (''id'', PStr article_id), (''retmode'', PStr ''xml'')]\<rparr>"

text \<open>Lines 153 to 167: the five values and the dict that holds them.\<close>

definition article_info_of :: "string \<Rightarrow> response \<Rightarrow> citation" where
  "article_info_of article_id response =
     (let sp = soup response;
          title = item_text sp ''Title'';
          publication_date = item_text sp ''EPubDate'';
          doi = item_text sp ''DOI'';
          pmc_ref_count = item_text sp ''PmcRefCount'';
          pubmed_link = ''https://pubmed.ncbi.nlm.nih.gov/'' @ article_id @ ''/''
      in [(''title'', title),
          (''publication_date'', publication_date),
          (''doi'', doi),
          (''pmc_ref_count'', pmc_ref_count),
          (''pubmed_link'', pubmed_link)])"

definition fetch_article_info :: "world \<Rightarrow> string \<Rightarrow> request list
    \<Rightarrow> (error + citation) \<times> request list" where
  "fetch_article_info w article_id log =
     (case requests_get w (detail_request article_id) log of
        (Inl e, log') \<Rightarrow> (Inl e, log')
      | (Inr response, log') \<Rightarrow> (Inr (article_info_of article_id response), log'))"

subsection \<open>\<^verbatim>\<open>search_for_usages\<close>\<close>

definition search_request :: "string \<Rightarrow> request" where
  "search_request data_source =
     \<lparr>url = ''https://eutils.ncbi.nlm.nih.gov/entrez/eutils/esearch.fcgi'',
      params = [(''db'', PStr ''pubmed''), (''term'', PStr data_source),
                (''retmode'', PStr ''json''), (''retmax'', PInt 20)]\<rparr>"

text \<open>
  \<^verbatim>\<open>search_results.get('esearchresult', {}).get('idlist', [])\<close>, and what the
  \<^verbatim>\<open>for\<close> statement then iterates over.
\<close>

definition article_ids_of :: "json \<Rightarrow> error + string list" where
  "article_ids_of search_results =
     (case py_get search_results ''esearchresult'' (JObj []) of
        Inl e \<Rightarrow> Inl e
      | Inr esearchresult \<Rightarrow>
          (case py_get esearchresult ''idlist'' (JArr []) of
             Inl e \<Rightarrow> Inl e
           | Inr article_ids \<Rightarrow> py_iter article_ids))"

text \<open>
  The loop of lines 129 to 132: one detail call per identifier; a truthy record is appended;
  an exception leaves the loop and the function.
\<close>

fun fetch_loop :: "world \<Rightarrow> string list \<Rightarrow> citation list \<Rightarrow> request list
    \<Rightarrow> (error + citation list) \<times> request list" where
  "fetch_loop w [] articles log = (Inr articles, log)"
| "fetch_loop w (article_id # rest) articles log =
     (case fetch_article_info w article_id log of
        (Inl e, log') \<Rightarrow> (Inl e, log')
      | (Inr article_info, log') \<Rightarrow>
          fetch_loop w rest
            (if article_info \<noteq> [] then articles @ [article_info] else articles) log')"

definition search_for_usages :: "world \<Rightarrow> string \<Rightarrow> request list
    \<Rightarrow> (error + citation list) \<times> request list" where
  "search_for_usages w data_source log =
     (case requests_get w (search_request data_source) log of
        (Inl e, log') \<Rightarrow> (Inl e, log')
      | (Inr response, log') \<Rightarrow>
          (case response_json response of
             Inl e \<Rightarrow> (Inl e, log')
           | Inr search_results \<Rightarrow>
               (case article_ids_of search_results of
                  Inl e \<Rightarrow> (Inl e, log')
                | Inr article_ids \<Rightarrow> fetch_loop w article_ids [] log')))"

subsection \<open>\<^verbatim>\<open>format_top_usages_as_markdown\<close>\<close>

text \<open>\<^verbatim>\<open>result[key]\<close>\<close>

definition subscript :: "citation \<Rightarrow> string \<Rightarrow> error + string" where
  "subscript result key = (case map_of result key of None \<Rightarrow> Inl (KeyError key) | Some v \<Rightarrow> Inr v)"

text \<open>The f-string of line 183; the subscripts are evaluated left to right.\<close>

definition format_row :: "citation \<Rightarrow> error + string" where
  "format_row result =
     (case subscript result ''title'' of Inl e \<Rightarrow> Inl e | Inr title \<Rightarrow>
     (case subscript result ''publication_date'' of Inl e \<Rightarrow> Inl e | Inr publication_date \<Rightarrow>
     (case subscript result ''doi'' of Inl e \<Rightarrow> Inl e | Inr doi \<Rightarrow>
     (case subscript result ''pmc_ref_count'' of Inl e \<Rightarrow> Inl e | Inr pmc_ref_count \<Rightarrow>
     (case subscript result ''pubmed_link'' of Inl e \<Rightarrow> Inl e | Inr pubmed_link \<Rightarrow>
        Inr (''| '' @ title @ '' | '' @ publication_date @ '' | '' @ doi @ '' | '' @ pmc_ref_count
             @ '' | [Link]('' @ pubmed_link @ '') |\<newline>''))))))"

fun format_loop :: "citation list \<Rightarrow> string \<Rightarrow> error + string" where
  "format_loop [] markdown_table = Inr markdown_table"
| "format_loop (result # rest) markdown_table =
     (case format_row result of
        Inl e \<Rightarrow> Inl e
      | Inr row \<Rightarrow> format_loop rest (markdown_table @ row))"

definition header_line :: string where
  "header_line = ''| Title | Publication Date | DOI | PMC Reference Count | PubMed Link |''"

definition separator_line :: string where
  "separator_line = ''|-------|-----------------|-----|---------------------|-------------|''"

definition format_top_usages_as_markdown :: "citation list \<Rightarrow> error + string" where
  "format_top_usages_as_markdown search_results =
     format_loop search_results
       ((header_line @ ''\<newline>'') @ (separator_line @ ''\<newline>''))"

subsection \<open>The renderer as a call in a program state\<close>

text \<open>
  A Python call receives references. The program state holds the objects they denote (lists of
  references, dicts with text values, strings) and the network calls made so far, so that a
  function could change a list or a record it was handed, or depend on what happened before.
\<close>

type_synonym ref = nat

datatype pyobj = PyList "ref list" | PyDict citation | PyStr string

record pystate =
  heap :: "ref \<Rightarrow> pyobj"
  requests :: "request list"

text \<open>
  The f-string of line 183 on an object: \<^verbatim>\<open>result['title']\<close> is the first subscript
  evaluated, and on a list or a string a text subscript raises \<^verbatim>\<open>TypeError\<close>.
\<close>

fun format_row_obj :: "pyobj \<Rightarrow> error + string" where
  "format_row_obj (PyDict d) = format_row d"
| "format_row_obj (PyList refs) = Inl TypeError"
| "format_row_obj (PyStr t) = Inl TypeError"

text \<open>The loop of lines 182 and 183 over the references a list holds, reading each from the heap.\<close>

fun format_loop_in :: "ref list \<Rightarrow> string \<Rightarrow> pystate \<Rightarrow> (error + string) \<times> pystate" where
  "format_loop_in [] markdown_table s = (Inr markdown_table, s)"
| "format_loop_in (result # rest) markdown_table s =
     (case format_row_obj (heap s result) of
        Inl e \<Rightarrow> (Inl e, s)
      | Inr row \<Rightarrow> format_loop_in rest (markdown_table @ row) s)"

text \<open>
  \<^verbatim>\<open>format_top_usages_as_markdown(search_results)\<close> in a state. Iterating a dict or a string
  yields strings, so the first row raises unless there is nothing to iterate.
\<close>

definition format_top_usages_as_markdown_in :: "ref \<Rightarrow> pystate \<Rightarrow> (error + string) \<times> pystate" where
  "format_top_usages_as_markdown_in search_results s =
     (let markdown_table = (header_line @ ''\<newline>'') @ (separator_line @ ''\<newline>'')
      in case heap s search_results of
           PyList refs \<Rightarrow> format_loop_in refs markdown_table s
         | PyDict d \<Rightarrow> (if d = [] then (Inr markdown_table, s) else (Inl TypeError, s))
         | PyStr t \<Rightarrow> (if t = [] then (Inr markdown_table, s) else (Inl TypeError, s)))"

subsection \<open>Vocabulary of the properties\<close>

text \<open>The keys of a Citation Record, and a record that has them all.\<close>

definition field_names :: "string list" where
  "field_names = [''title'', ''publication_date'', ''doi'', ''pmc_ref_count'', ''pubmed_link'']"

definition fully_populated :: "citation \<Rightarrow> bool" where
  "fully_populated r \<longleftrightarrow> (\<forall>k \<in> set field_names. map_of r k \<noteq> None)"

text \<open>
  All tags of a document, in document order, and whether an \<^verbatim>\<open>Item\<close> element with a given
  \<^verbatim>\<open>Name\<close> is among them: a field is missing from a detail response when it is not.
\<close>

fun tags_of :: "xml \<Rightarrow> xml list" and tags_in :: "xml list \<Rightarrow> xml list" where
  "tags_of (Text s) = []"
| "tags_of (Tag n attrs children) = Tag n attrs children # tags_in children"
| "tags_in [] = []"
| "tags_in (x # xs) = tags_of x @ tags_in xs"

fun is_item :: "string \<Rightarrow> xml \<Rightarrow> bool" where
  "is_item name (Tag n attrs children) \<longleftrightarrow> n = ''Item'' \<and> map_of attrs ''Name'' = Some name"
| "is_item name (Text s) \<longleftrightarrow> False"

definition has_item :: "xml list \<Rightarrow> string \<Rightarrow> bool" where
  "has_item sp name \<longleftrightarrow> list_ex (is_item name) (tags_in sp)"

text \<open>
  A value is real when it is the text of an \<^verbatim>\<open>Item\<close> element of that name in the document;
  it is the sentinel when the document has no such element.
\<close>

definition real_or_sentinel :: "xml list \<Rightarrow> string \<Rightarrow> string \<Rightarrow> bool" where
  "real_or_sentinel sp name v \<longleftrightarrow>
     (if has_item sp name then list_ex (\<lambda>t. is_item name t \<and> v = get_text t) (tags_in sp)
      else v = ''N/A'')"

text \<open>
  What a reference holds as a sequence: the objects a list refers to, in order, or the object
  itself when it is not a list.
\<close>

definition sequence_at :: "pystate \<Rightarrow> ref \<Rightarrow> pyobj list + pyobj" where
  "sequence_at s p = (case heap s p of PyList refs \<Rightarrow> Inl (map (heap s) refs) | obj \<Rightarrow> Inr obj)"

text \<open>The same network with every status code replaced.\<close>

definition with_status :: "(nat \<Rightarrow> nat) \<Rightarrow> world \<Rightarrow> world" where
  "with_status f w log req = map_sum id (\<lambda>r. r\<lparr>status_code := f (status_code r)\<rparr>) (w log req)"

text \<open>\<^verbatim>\<open>s.split(c)\<close> for a one-character separator: the pieces between the separators.\<close>

fun split_on :: "char \<Rightarrow> string \<Rightarrow> string list" where
  "split_on c [] = [[]]"
| "split_on c (x # xs) =
     (if x = c then [] # split_on c xs
      else (case split_on c xs of [] \<Rightarrow> [[x]] | piece # pieces \<Rightarrow> (x # piece) # pieces))"

text \<open>The five cells of a record's row, and the row without its newline.\<close>

definition cells :: "citation \<Rightarrow> string list" where
  "cells r =
     ['' '' @ the (map_of r ''title'') @ '' '',
      '' '' @ the (map_of r ''publication_date'') @ '' '',
      '' '' @ the (map_of r ''doi'') @ '' '',
      '' '' @ the (map_of r ''pmc_ref_count'') @ '' '',
      '' [Link]('' @ the (map_of r ''pubmed_link'') @ '') '']"

definition data_row :: "citation \<Rightarrow> string" where
  "data_row r = ''|'' @ concat (map (\<lambda>c. c @ ''|'') (cells r))"

subsection \<open>Concrete networks and records\<close>

text \<open>An esummary document carrying the four items, and one carrying the title only.\<close>

definition summary_xml :: "xml list" where
  "summary_xml =
     [Tag ''eSummaryResult'' []
        [Tag ''DocSum'' []
           [Tag ''Id'' [] [Text ''123''],
            Tag ''Item'' [(''Name'', ''PubDate''), (''Type'', ''Date'')] [Text ''2021 Jan''],
            Tag ''Item'' [(''Name'', ''EPubDate''), (''Type'', ''Date'')] [Text ''2021''],
            Tag ''Item'' [(''Name'', ''Title''), (''Type'', ''String'')] [Text ''Study X''],
            Tag ''Item'' [(''Name'', ''ArticleIds''), (''Type'', ''List'')]
              [Tag ''Item'' [(''Name'', ''pubmed''), (''Type'', ''String'')] [Text ''123''],
               Tag ''Item'' [(''Name'', ''doi''), (''Type'', ''String'')] [Text ''10.1/xyz'']],
            Tag ''Item'' [(''Name'', ''DOI''), (''Type'', ''String'')] [Text ''10.1/xyz''],
            Tag ''Item'' [(''Name'', ''PmcRefCount''), (''Type'', ''Integer'')] [Text ''5'']]]]"

definition sparse_xml :: "xml list" where
  "sparse_xml =
     [Tag ''eSummaryResult'' []
        [Tag ''DocSum'' []
           [Tag ''Item'' [(''Name'', ''Title''), (''Type'', ''String'')] [Text ''Survey Y'']]]]"

text \<open>The body of an esearch answer listing the given identifiers.\<close>

definition search_body :: "string list \<Rightarrow> json" where
  "search_body ids =
     JObj [(''header'', JObj [(''type'', JStr ''esearch'')]),
           (''esearchresult'', JObj [(''retmax'', JStr ''20''), (''idlist'', JArr ids)])]"

text \<open>
  A network that answers every search with the given status and body, and every detail
  request by the given function of the identifier.
\<close>

definition serve :: "nat \<Rightarrow> json option \<Rightarrow> (string \<Rightarrow> error + response) \<Rightarrow> world" where
  "serve status body detail log req =
     (if url req = ''https://eutils.ncbi.nlm.nih.gov/entrez/eutils/esearch.fcgi''
      then Inr \<lparr>status_code = status, json_body = body, soup = []\<rparr>
      else (case map_of (params req) ''id'' of
              Some (PStr a) \<Rightarrow> detail a
            | _ \<Rightarrow> Inl (RequestException ''no identifier'')))"

definition summary_response :: response where
  "summary_response = \<lparr>status_code = 200, json_body = None, soup = summary_xml\<rparr>"

definition sparse_response :: response where
  "sparse_response = \<lparr>status_code = 200, json_body = None, soup = sparse_xml\<rparr>"

definition server_error_response :: response where
  "server_error_response = \<lparr>status_code = 500, json_body = None, soup = []\<rparr>"

definition demo_world :: world where
  "demo_world =
     serve 200 (Some (search_body [''123'', ''7'']))
       (\<lambda>a. if a = ''123'' then Inr summary_response else Inr sparse_response)"

definition empty_world :: world where
  "empty_world =
     serve 200 (Some (search_body [])) (\<lambda>a. Inl (RequestException ''unexpected call''))"

definition error_status_world :: world where
  "error_status_world =
     serve 200 (Some (search_body [''123''])) (\<lambda>a. Inr server_error_response)"

definition rate_limited_world :: world where
  "rate_limited_world =
     serve 429 (Some (JObj [(''error'', JStr ''API rate limit exceeded'')]))
       (\<lambda>a. Inr summary_response)"

definition refusing_world :: world where
  "refusing_world =
     serve 200 (Some (search_body [''123'', ''7'', ''9'']))
       (\<lambda>a. if a = ''123'' then Inr summary_response
            else Inl (RequestException ''connection reset''))"

definition offline_world :: world where
  "offline_world log req = Inl (RequestException ''name resolution failed'')"

definition twenty_one_ids :: "string list" where
  "twenty_one_ids =
     [''31415900'', ''31415907'', ''31415914'', ''31415921'', ''31415928'', ''31415935'',
      ''31415942'', ''31415949'', ''31415956'', ''31415963'', ''31415970'', ''31415977'',
      ''31415984'', ''31415991'', ''31415998'', ''31416005'', ''31416012'', ''31416019'',
      ''31416026'', ''31416033'', ''31416040'']"

definition generous_world :: world where
  "generous_world = serve 200 (Some (search_body twenty_one_ids)) (\<lambda>a. Inr sparse_response)"

text \<open>The synthetic record of the specification, and one whose title spans two lines.\<close>

definition study_x :: citation where
  "study_x =
     [(''title'', ''Study X''), (''publication_date'', ''2021''), (''doi'', ''10.1/xyz''),
      (''pmc_ref_count'', ''5''), (''pubmed_link'', ''https://pubmed.ncbi.nlm.nih.gov/123/'')]"

definition survey_y :: citation where
  "survey_y =
     [(''title'', ''Survey Y''), (''publication_date'', ''N/A''), (''doi'', ''N/A''),
      (''pmc_ref_count'', ''N/A''), (''pubmed_link'', ''https://pubmed.ncbi.nlm.nih.gov/7/'')]"

definition two_line_title :: citation where
  "two_line_title =
     [(''title'', ''Study\<newline>X''), (''publication_date'', ''2021''), (''doi'', ''10.1/xyz''),
      (''pmc_ref_count'', ''5''), (''pubmed_link'', ''https://pubmed.ncbi.nlm.nih.gov/123/'')]"

text \<open>
  Two program states that hold the records ``Study X'' and ``Survey Y'' as a list: at different
  addresses, among different other objects and after different network calls.
\<close>

definition state_after_search :: pystate where
  "state_after_search =
     \<lparr>heap = (\<lambda>p. if p = 0 then PyList [1, 2]
                  else if p = 1 then PyDict study_x
                  else if p = 2 then PyDict survey_y
                  else PyStr ''''),
      requests = [search_request ''q'', detail_request ''123'', detail_request ''7'']\<rparr>"

definition state_elsewhere :: pystate where
  "state_elsewhere =
     \<lparr>heap = (\<lambda>p. if p = 5 then PyList [9, 8]
                  else if p = 9 then PyDict study_x
                  else if p = 8 then PyDict survey_y
                  else PyList [5]),
      requests = []\<rparr>"

section \<open>Properties\<close>

subsection \<open>One detail call\<close>

lemma fetch_article_info_Inr:
  "w log (detail_request article_id) = Inr resp \<Longrightarrow>
   fetch_article_info w article_id log = (Inr (article_info_of article_id resp), log @ [detail_request article_id])"
  by (simp add: fetch_article_info_def requests_get_def)

lemma fetch_article_info_Inl:
  "w log (detail_request article_id) = Inl e \<Longrightarrow>
   fetch_article_info w article_id log = (Inl e, log @ [detail_request article_id])"
  by (simp add: fetch_article_info_def requests_get_def)

lemma article_info_of_nonempty: "article_info_of article_id resp \<noteq> []"
  by (simp add: article_info_of_def Let_def)

lemma subscript_link:
  "subscript (article_info_of a r) ''pubmed_link'' = Inr (''https://pubmed.ncbi.nlm.nih.gov/'' @ a @ ''/'')"
  by (simp add: subscript_def article_info_of_def Let_def)

lemma article_info_of_keys: "map fst (article_info_of a r) = field_names"
  by (simp add: article_info_of_def field_names_def Let_def)

lemma article_info_of_populated: "fully_populated (article_info_of a r)"
  by (simp add: fully_populated_def article_info_of_def field_names_def Let_def)

lemma fetch_article_info_returns:
  assumes "fst (fetch_article_info w a log) = Inr r"
  shows "\<exists>resp. w log (detail_request a) = Inr resp \<and> r = article_info_of a resp"
  using assms
  by (cases "w log (detail_request a)") (simp_all add: fetch_article_info_Inl fetch_article_info_Inr)

subsection \<open>Finding an item\<close>

lemma find_None_iff:
  "find_tag ''Item'' ''Name'' name x = None \<longleftrightarrow> \<not> list_ex (is_item name) (tags_of x)"
  "find_first ''Item'' ''Name'' name xs = None \<longleftrightarrow> \<not> list_ex (is_item name) (tags_in xs)"
  by (induction "''Item''" "''Name''" name x and "''Item''" "''Name''" name xs rule: find_tag_find_first.induct)
     (auto split: option.splits)

lemma find_Some:
  "find_tag ''Item'' ''Name'' name x = Some t \<Longrightarrow> t \<in> set (tags_of x) \<and> is_item name t"
  "find_first ''Item'' ''Name'' name xs = Some t \<Longrightarrow> t \<in> set (tags_in xs) \<and> is_item name t"
  by (induction "''Item''" "''Name''" name x and "''Item''" "''Name''" name xs rule: find_tag_find_first.induct)
     (auto split: option.splits if_splits)

lemma item_text_missing: "\<not> has_item sp name \<Longrightarrow> item_text sp name = ''N/A''"
  by (simp add: item_text_def has_item_def find_None_iff(2)[symmetric])

lemma item_text_present:
  "has_item sp name \<Longrightarrow> \<exists>t \<in> set (tags_in sp). is_item name t \<and> item_text sp name = get_text t"
  by (cases "find_first ''Item'' ''Name'' name sp")
     (auto simp: item_text_def has_item_def find_None_iff(2) dest: find_Some(2))

lemma subscript_fields:
  "subscript (article_info_of a r) ''title'' = Inr (item_text (soup r) ''Title'')"
  "subscript (article_info_of a r) ''publication_date'' = Inr (item_text (soup r) ''EPubDate'')"
  "subscript (article_info_of a r) ''doi'' = Inr (item_text (soup r) ''DOI'')"
  "subscript (article_info_of a r) ''pmc_ref_count'' = Inr (item_text (soup r) ''PmcRefCount'')"
  by (simp_all add: subscript_def article_info_of_def Let_def)

lemma item_text_real_or_sentinel: "real_or_sentinel sp name (item_text sp name)"
  using item_text_missing[of sp name] item_text_present[of sp name]
  by (auto simp: real_or_sentinel_def list_ex_iff)

subsection \<open>The loop over the identifiers\<close>

lemma fetch_loop_all_respond:
  assumes "length resps = length ids"
    and "\<forall>i<length ids. w (log @ map detail_request (take i ids)) (detail_request (ids ! i)) = Inr (resps ! i)"
  shows "fetch_loop w ids articles log =
           (Inr (articles @ map2 article_info_of ids resps), log @ map detail_request ids)"
  using assms
proof (induction ids arbitrary: resps articles log)
  case Nil
  then show ?case by simp
next
  case (Cons a ids)
  then obtain r rs where resps: "resps = r # rs" by (cases resps) auto
  from Cons.prems(2) have h0: "w log (detail_request a) = Inr r"
    by (auto simp: resps dest: spec[of _ 0])
  have hs: "\<forall>i<length ids. w ((log @ [detail_request a]) @ map detail_request (take i ids)) (detail_request (ids ! i)) = Inr (rs ! i)"
  proof (intro allI impI)
    fix i assume "i < length ids"
    with Cons.prems(2) have "w (log @ map detail_request (take (Suc i) (a # ids))) (detail_request ((a # ids) ! Suc i)) = Inr (resps ! Suc i)"
      by (metis Suc_less_eq length_Cons)
    then show "w ((log @ [detail_request a]) @ map detail_request (take i ids)) (detail_request (ids ! i)) = Inr (rs ! i)"
      by (simp add: resps)
  qed
  from Cons.prems(1) have len: "length rs = length ids" by (simp add: resps)
  show ?case
    using Cons.IH[OF len hs, of "articles @ [article_info_of a r]"] h0
    by (simp add: fetch_article_info_Inr article_info_of_nonempty resps)
qed

lemma fetch_loop_first_failure:
  assumes "i < length ids"
    and "\<forall>j<i. \<exists>r. w (log @ map detail_request (take j ids)) (detail_request (ids ! j)) = Inr r"
    and "w (log @ map detail_request (take i ids)) (detail_request (ids ! i)) = Inl e"
  shows "fetch_loop w ids articles log = (Inl e, log @ map detail_request (take (Suc i) ids))"
  using assms
proof (induction ids arbitrary: i articles log)
  case Nil
  then show ?case by simp
next
  case (Cons a ids)
  show ?case
  proof (cases i)
    case 0
    with Cons.prems(3) have "w log (detail_request a) = Inl e" by simp
    then show ?thesis by (simp add: fetch_article_info_Inl 0)
  next
    case (Suc k)
    from Cons.prems(2) Suc obtain r where h0: "w log (detail_request a) = Inr r"
      by (auto dest: spec[of _ 0])
    have k: "k < length ids" using Cons.prems(1) Suc by simp
    have hs: "\<forall>j<k. \<exists>r. w ((log @ [detail_request a]) @ map detail_request (take j ids)) (detail_request (ids ! j)) = Inr r"
    proof (intro allI impI)
      fix j assume "j < k"
      then have "Suc j < i" using Suc by simp
      with Cons.prems(2) obtain r' where "w (log @ map detail_request (take (Suc j) (a # ids))) (detail_request ((a # ids) ! Suc j)) = Inr r'"
        by blast
      then show "\<exists>r. w ((log @ [detail_request a]) @ map detail_request (take j ids)) (detail_request (ids ! j)) = Inr r"
        by simp
    qed
    have he: "w ((log @ [detail_request a]) @ map detail_request (take k ids)) (detail_request (ids ! k)) = Inl e"
      using Cons.prems(3) Suc by simp
    show ?thesis
      using Cons.IH[OF k hs he] h0
      by (simp add: fetch_article_info_Inr article_info_of_nonempty Suc)
  qed
qed

lemma fetch_loop_returns:
  assumes "fetch_loop w ids articles log = (Inr recs, log')"
  shows "\<exists>resps. length resps = length ids \<and>
           (\<forall>i<length ids. w (log @ map detail_request (take i ids)) (detail_request (ids ! i)) = Inr (resps ! i))"
  using assms
proof (induction ids arbitrary: articles log)
  case Nil
  then show ?case by simp
next
  case (Cons a ids)
  show ?case
  proof (cases "w log (detail_request a)")
    case (Inl e)
    with Cons.prems show ?thesis by (simp add: fetch_article_info_Inl)
  next
    case (Inr r)
    with Cons.prems have "fetch_loop w ids (articles @ [article_info_of a r]) (log @ [detail_request a]) = (Inr recs, log')"
      by (simp add: fetch_article_info_Inr article_info_of_nonempty)
    from Cons.IH[OF this] obtain rs where rs: "length rs = length ids"
      "\<forall>i<length ids. w ((log @ [detail_request a]) @ map detail_request (take i ids)) (detail_request (ids ! i)) = Inr (rs ! i)"
      by blast
    have "\<forall>i<length (a # ids). w (log @ map detail_request (take i (a # ids))) (detail_request ((a # ids) ! i)) = Inr ((r # rs) ! i)"
    proof (intro allI impI)
      fix i assume i: "i < length (a # ids)"
      show "w (log @ map detail_request (take i (a # ids))) (detail_request ((a # ids) ! i)) = Inr ((r # rs) ! i)"
      proof (cases i)
        case 0 then show ?thesis using Inr by simp
      next
        case (Suc k)
        with i rs(2) show ?thesis by simp
      qed
    qed
    with rs(1) show ?thesis by (intro exI[of _ "r # rs"]) simp
  qed
qed

lemma fetch_loop_members:
  assumes "fetch_loop w ids articles log = (Inr recs, log')"
  shows "\<forall>r \<in> set recs. r \<in> set articles \<or> (\<exists>a \<in> set ids. \<exists>resp. r = article_info_of a resp)"
proof -
  from fetch_loop_returns[OF assms] obtain resps where
    len: "length resps = length ids" and
    ok: "\<forall>i<length ids. w (log @ map detail_request (take i ids)) (detail_request (ids ! i)) = Inr (resps ! i)"
    by blast
  from fetch_loop_all_respond[OF len ok, of articles] assms
  have "recs = articles @ map2 article_info_of ids resps" by simp
  then show ?thesis
    by (auto dest: set_zip_leftD)
qed

subsection \<open>The search step\<close>

lemma search_for_usages_step:
  assumes "w log (search_request q) = Inr sr" "response_json sr = Inr j" "article_ids_of j = Inr ids"
  shows "search_for_usages w q log = fetch_loop w ids [] (log @ [search_request q])"
  using assms by (simp add: search_for_usages_def requests_get_def)

lemma search_for_usages_Inr:
  assumes "fst (search_for_usages w q log) = Inr recs"
  shows "\<exists>sr j ids. w log (search_request q) = Inr sr \<and> response_json sr = Inr j \<and>
           article_ids_of j = Inr ids \<and>
           search_for_usages w q log = fetch_loop w ids [] (log @ [search_request q])"
proof (cases "w log (search_request q)")
  case (Inl e)
  with assms show ?thesis by (simp add: search_for_usages_def requests_get_def)
next
  case sr: (Inr sr)
  show ?thesis
  proof (cases "response_json sr")
    case (Inl e)
    with assms sr show ?thesis by (simp add: search_for_usages_def requests_get_def)
  next
    case j: (Inr j)
    show ?thesis
    proof (cases "article_ids_of j")
      case (Inl e)
      with assms sr j show ?thesis by (simp add: search_for_usages_def requests_get_def)
    next
      case (Inr ids)
      with sr j show ?thesis by (simp add: search_for_usages_def requests_get_def)
    qed
  qed
qed


lemma search_for_usages_members:
  assumes "fst (search_for_usages w q log) = Inr recs"
  shows "\<forall>r \<in> set recs. \<exists>a resp. r = article_info_of a resp"
proof -
  from search_for_usages_Inr[OF assms] obtain ids where
    "search_for_usages w q log = fetch_loop w ids [] (log @ [search_request q])" by blast
  with assms have "fetch_loop w ids [] (log @ [search_request q]) = (Inr recs, snd (search_for_usages w q log))"
    by (metis prod.collapse)
  from fetch_loop_members[OF this] show ?thesis by fastforce
qed

lemma fetch_loop_log:
  "\<exists>k\<le>length ids. snd (fetch_loop w ids articles log) = log @ map detail_request (take k ids) \<and>
      (\<forall>recs. fst (fetch_loop w ids articles log) = Inr recs \<longrightarrow>
         k = length ids \<and> length recs = length articles + length ids)"
proof (induction ids arbitrary: articles log)
  case Nil
  then show ?case by simp
next
  case (Cons a ids)
  show ?case
  proof (cases "w log (detail_request a)")
    case (Inl e)
    then have "fetch_loop w (a # ids) articles log = (Inl e, log @ [detail_request a])"
      by (simp add: fetch_article_info_Inl)
    then show ?thesis by (intro exI[of _ "Suc 0"]) simp
  next
    case (Inr r)
    then have step: "fetch_loop w (a # ids) articles log
        = fetch_loop w ids (articles @ [article_info_of a r]) (log @ [detail_request a])"
      by (simp add: fetch_article_info_Inr article_info_of_nonempty)
    from Cons.IH[of "articles @ [article_info_of a r]" "log @ [detail_request a]"]
    obtain k where k: "k \<le> length ids"
      "snd (fetch_loop w ids (articles @ [article_info_of a r]) (log @ [detail_request a]))
         = (log @ [detail_request a]) @ map detail_request (take k ids)"
      "\<forall>recs. fst (fetch_loop w ids (articles @ [article_info_of a r]) (log @ [detail_request a])) = Inr recs \<longrightarrow>
         k = length ids \<and> length recs = length (articles @ [article_info_of a r]) + length ids"
      by blast
    show ?thesis
      unfolding step using k by (intro exI[of _ "Suc k"]) simp
  qed
qed


subsection \<open>The status code is never read\<close>

lemma fetch_article_info_with_status:
  "fetch_article_info (with_status f w) a log = fetch_article_info w a log"
  by (cases "w log (detail_request a)")
     (simp_all add: fetch_article_info_def requests_get_def with_status_def article_info_of_def)

lemma fetch_loop_with_status:
  "fetch_loop (with_status f w) ids articles log = fetch_loop w ids articles log"
  by (induction ids arbitrary: articles log)
     (simp_all add: fetch_article_info_with_status split: prod.splits sum.splits)

lemma search_for_usages_with_status:
  "search_for_usages (with_status f w) q log = search_for_usages w q log"
  by (cases "w log (search_request q)")
     (simp_all add: search_for_usages_def requests_get_def with_status_def response_json_def
        fetch_loop_with_status split: sum.splits option.splits)

subsection \<open>Splitting text, and the rows of the table\<close>

lemma split_on_nonempty: "split_on c s \<noteq> []"
  by (induction s) (auto split: list.splits)

lemma split_on_no_sep: "c \<notin> set s \<Longrightarrow> split_on c s = [s]"
  by (induction s) auto

lemma split_on_append: "c \<notin> set a \<Longrightarrow> split_on c (a @ c # b) = a # split_on c b"
  by (induction a) auto

lemma subscript_populated:
  "fully_populated r \<Longrightarrow> k \<in> set field_names \<Longrightarrow> subscript r k = Inr (the (map_of r k))"
  by (auto simp: fully_populated_def subscript_def split: option.splits)

lemma format_row_populated:
  assumes "fully_populated r"
  shows "format_row r = Inr (data_row r @ ''\<newline>'')"
proof -
  have "subscript r ''title'' = Inr (the (map_of r ''title''))"
    "subscript r ''publication_date'' = Inr (the (map_of r ''publication_date''))"
    "subscript r ''doi'' = Inr (the (map_of r ''doi''))"
    "subscript r ''pmc_ref_count'' = Inr (the (map_of r ''pmc_ref_count''))"
    "subscript r ''pubmed_link'' = Inr (the (map_of r ''pubmed_link''))"
    using assms by (simp_all add: subscript_populated field_names_def)
  then show ?thesis
    by (simp add: format_row_def data_row_def cells_def)
qed

lemma format_loop_populated:
  "\<forall>r \<in> set rs. fully_populated r \<Longrightarrow>
   format_loop rs table = Inr (table @ concat (map (\<lambda>r. data_row r @ ''\<newline>'') rs))"
  by (induction rs arbitrary: table) (simp_all add: format_row_populated)

lemma format_row_missing:
  "\<not> fully_populated r \<Longrightarrow> \<exists>k \<in> set field_names. format_row r = Inl (KeyError k)"
  by (auto simp: fully_populated_def format_row_def subscript_def field_names_def split: option.splits sum.splits)

text \<open>
  The table depends on the five values of each record and on nothing else: neither the order
  of the keys nor further keys change it.
\<close>

lemma format_row_values_only:
  assumes "map (map_of r) field_names = map (map_of r') field_names"
  shows "format_row r = format_row r'"
proof -
  from assms have "subscript r ''title'' = subscript r' ''title''"
    "subscript r ''publication_date'' = subscript r' ''publication_date''"
    "subscript r ''doi'' = subscript r' ''doi''"
    "subscript r ''pmc_ref_count'' = subscript r' ''pmc_ref_count''"
    "subscript r ''pubmed_link'' = subscript r' ''pubmed_link''"
    by (simp_all add: field_names_def subscript_def)
  then show ?thesis
    by (simp only: format_row_def)
qed

lemma format_loop_values_only:
  "list_all2 (\<lambda>r r'. map (map_of r) field_names = map (map_of r') field_names) rs rs' \<Longrightarrow>
   format_loop rs table = format_loop rs' table"
proof (induction rs rs' arbitrary: table rule: list_all2_induct)
  case Nil
  then show ?case by simp
next
  case (Cons r rs r' rs')
  then show ?case
    by (simp add: format_row_values_only[of r r'] split: sum.splits)
qed

lemma format_values_only:
  "list_all2 (\<lambda>r r'. map (map_of r) field_names = map (map_of r') field_names) rs rs' \<Longrightarrow>
   format_top_usages_as_markdown rs = format_top_usages_as_markdown rs'"
  by (simp add: format_top_usages_as_markdown_def format_loop_values_only)

lemma split_lines_rows:
  "\<forall>r \<in> set rs. CHR ''\<newline>'' \<notin> set (data_row r) \<Longrightarrow>
   split_on CHR ''\<newline>'' (concat (map (\<lambda>r. data_row r @ ''\<newline>'') rs)) = map data_row rs @ [[]]"
  by (induction rs) (simp_all add: split_on_append)

lemma newline_header: "CHR ''\<newline>'' \<notin> set header_line" "CHR ''\<newline>'' \<notin> set separator_line"
  by (simp_all add: header_line_def separator_line_def)

lemma set_data_row:
  "set (data_row r) = {CHR ''|'', CHR '' '', CHR ''['', CHR ''L'', CHR ''i'', CHR ''n'', CHR ''k'', CHR '']'', CHR ''('', CHR '')''}
     \<union> (\<Union>k \<in> set field_names. set (the (map_of r k)))"
  by (auto simp: data_row_def cells_def field_names_def)

lemma split_cells:
  assumes "\<forall>k \<in> set field_names. CHR ''|'' \<notin> set (the (map_of r k))"
  shows "split_on CHR ''|'' (data_row r) = [] # cells r @ [[]]"
proof -
  have "\<forall>c \<in> set (cells r). CHR ''|'' \<notin> set c"
    using assms by (simp add: cells_def field_names_def)
  moreover have "(\<forall>c \<in> set cs. CHR ''|'' \<notin> set c) \<Longrightarrow>
    split_on CHR ''|'' (concat (map (\<lambda>c. c @ ''|'') cs)) = cs @ [[]]" for cs
    by (induction cs) (simp_all add: split_on_append)
  ultimately show ?thesis
    by (simp add: data_row_def)
qed

lemma newline_in_data_row:
  "CHR ''\<newline>'' \<in> set (data_row r) \<longleftrightarrow>
     (\<exists>k \<in> set field_names. CHR ''\<newline>'' \<in> set (the (map_of r k)))"
  by (simp add: set_data_row)

subsection \<open>The renderer reads the sequence and changes nothing\<close>

lemma format_loop_in_state: "snd (format_loop_in refs table s) = s"
  by (induction refs arbitrary: table) (simp_all split: sum.splits)

lemma format_loop_in_content:
  "map (heap s') refs' = map (heap s) refs \<Longrightarrow>
   fst (format_loop_in refs' table s') = fst (format_loop_in refs table s)"
proof (induction refs arbitrary: refs' table)
  case Nil
  then show ?case by simp
next
  case (Cons r refs)
  then obtain r' rest' where refs': "refs' = r' # rest'" by (cases refs') auto
  with Cons.prems have h: "heap s' r' = heap s r" and t: "map (heap s') rest' = map (heap s) refs"
    by simp_all
  show ?case
    using Cons.IH[OF t] by (simp add: refs' h split: sum.splits)
qed

lemma format_loop_in_dicts:
  "map (heap s) refs = map PyDict rs \<Longrightarrow>
   fst (format_loop_in refs table s) = format_loop rs table"
proof (induction refs arbitrary: rs table)
  case Nil
  then show ?case by simp
next
  case (Cons r refs)
  then obtain d rest where rs: "rs = d # rest" by (cases rs) auto
  with Cons.prems have h: "heap s r = PyDict d" and t: "map (heap s) refs = map PyDict rest"
    by simp_all
  show ?case
    using Cons.IH[OF t] by (simp add: rs h split: sum.splits)
qed

lemma format_in_state: "snd (format_top_usages_as_markdown_in p s) = s"
  by (simp add: format_top_usages_as_markdown_in_def Let_def format_loop_in_state split: pyobj.splits)

lemma format_in_content:
  assumes "sequence_at s' p' = sequence_at s p"
  shows "fst (format_top_usages_as_markdown_in p' s') = fst (format_top_usages_as_markdown_in p s)"
proof (cases "heap s p")
  case (PyList refs)
  with assms obtain refs' where l': "heap s' p' = PyList refs'"
    and m: "map (heap s') refs' = map (heap s) refs"
    by (auto simp: sequence_at_def split: pyobj.splits)
  show ?thesis
    using format_loop_in_content[OF m]
    by (simp add: format_top_usages_as_markdown_in_def Let_def PyList l')
next
  case (PyDict d)
  with assms have "heap s' p' = PyDict d"
    by (auto simp: sequence_at_def split: pyobj.splits)
  with PyDict show ?thesis
    by (simp add: format_top_usages_as_markdown_in_def Let_def)
next
  case (PyStr t)
  with assms have "heap s' p' = PyStr t"
    by (auto simp: sequence_at_def split: pyobj.splits)
  with PyStr show ?thesis
    by (simp add: format_top_usages_as_markdown_in_def Let_def)
qed

lemma format_in_dicts:
  assumes "sequence_at s p = Inl (map PyDict rs)"
  shows "fst (format_top_usages_as_markdown_in p s) = format_top_usages_as_markdown rs"
proof -
  from assms obtain refs where l: "heap s p = PyList refs"
    and m: "map (heap s) refs = map PyDict rs"
    by (auto simp: sequence_at_def split: pyobj.splits)
  show ?thesis
    using format_loop_in_dicts[OF m]
    by (simp add: format_top_usages_as_markdown_in_def Let_def format_top_usages_as_markdown_def l)
qed

subsection \<open>The concrete networks, evaluated\<close>

lemmas eval_defs = search_for_usages_def fetch_article_info_def requests_get_def serve_def
  detail_request_def search_request_def response_json_def article_ids_of_def search_body_def
  article_info_of_def item_text_def

lemma demo_123: "fetch_article_info demo_world ''123'' [] = (Inr study_x, [detail_request ''123''])"
  by (simp add: fetch_article_info_def requests_get_def demo_world_def serve_def detail_request_def
      article_info_of_def item_text_def summary_response_def summary_xml_def study_x_def)

lemma demo_search: "fst (search_for_usages demo_world ''q'' []) = Inr [study_x, survey_y]"
  by (simp add: search_for_usages_def fetch_article_info_def requests_get_def demo_world_def serve_def
      detail_request_def search_request_def response_json_def article_ids_of_def search_body_def
      article_info_of_def item_text_def summary_response_def summary_xml_def study_x_def
      sparse_response_def sparse_xml_def survey_y_def)

section \<open>The claims\<close>

subsection \<open>C1: one record per identifier, in order\<close>

text \<open>
  Claim C1. When the search step yields a list of \<open>N\<close> identifiers and every detail call
  gets a response, \<^verbatim>\<open>search_for_usages\<close> returns exactly \<open>N\<close> records; the \<open>i\<close>-th record
  is the one built from the \<open>i\<close>-th identifier and the response to its detail call, and it
  carries that identifier's link. Nothing is dropped, reordered or merged: the record a
  detail call yields is never the empty dict, so the truthiness guard always passes.
\<close>

theorem search_for_usages_one_record_per_identifier:
  assumes "w log (search_request q) = Inr sr"
    and "response_json sr = Inr j"
    and "article_ids_of j = Inr ids"
    and "length resps = length ids"
    and "\<forall>i<length ids. w (log @ search_request q # map detail_request (take i ids))
                            (detail_request (ids ! i)) = Inr (resps ! i)"
  shows "\<exists>recs. fst (search_for_usages w q log) = Inr recs \<and> length recs = length ids \<and>
           (\<forall>i<length ids. recs ! i = article_info_of (ids ! i) (resps ! i) \<and> recs ! i \<noteq> [] \<and>
              subscript (recs ! i) ''pubmed_link''
                = Inr (''https://pubmed.ncbi.nlm.nih.gov/'' @ ids ! i @ ''/''))"
proof -
  from assms(5) have "\<forall>i<length ids. w ((log @ [search_request q]) @ map detail_request (take i ids))
                            (detail_request (ids ! i)) = Inr (resps ! i)"
    by simp
  then have loop: "fetch_loop w ids [] (log @ [search_request q]) =
          (Inr ([] @ map2 article_info_of ids resps), (log @ [search_request q]) @ map detail_request ids)"
    using assms(4) by (rule fetch_loop_all_respond[rotated])
  have "search_for_usages w q log = fetch_loop w ids [] (log @ [search_request q])"
    using assms(1-3) by (rule search_for_usages_step)
  with loop have res: "fst (search_for_usages w q log) = Inr (map2 article_info_of ids resps)"
    by simp
  have nth: "map2 article_info_of ids resps ! i = article_info_of (ids ! i) (resps ! i)"
    if "i < length ids" for i
    using that assms(4) by simp
  show ?thesis
  proof (intro exI conjI allI impI)
    show "fst (search_for_usages w q log) = Inr (map2 article_info_of ids resps)" by (rule res)
    show "length (map2 article_info_of ids resps) = length ids" using assms(4) by simp
  next
    fix i assume i: "i < length ids"
    show "map2 article_info_of ids resps ! i = article_info_of (ids ! i) (resps ! i)"
      by (rule nth[OF i])
    show "map2 article_info_of ids resps ! i \<noteq> []"
      by (simp only: nth[OF i] article_info_of_nonempty not_False_eq_True)
    show "subscript (map2 article_info_of ids resps ! i) ''pubmed_link''
            = Inr (''https://pubmed.ncbi.nlm.nih.gov/'' @ ids ! i @ ''/'')"
      by (simp only: nth[OF i] subscript_link)
  qed
qed


theorem search_for_usages_one_record_per_identifier_witness:
  "demo_world [] (search_request ''q'')
     = Inr \<lparr>status_code = 200, json_body = Some (search_body [''123'', ''7'']), soup = []\<rparr>
   \<and> article_ids_of (search_body [''123'', ''7'']) = Inr [''123'', ''7'']
   \<and> (\<exists>recs. fst (search_for_usages demo_world ''q'' []) = Inr recs \<and> length recs = 2
        \<and> recs ! 0 = article_info_of ''123'' summary_response
        \<and> recs ! 1 = article_info_of ''7'' sparse_response)"
proof -
  let ?sr = "\<lparr>status_code = 200, json_body = Some (search_body [''123'', ''7'']), soup = []\<rparr>"
  let ?ids = "[''123'', ''7'']"
  let ?resps = "[summary_response, sparse_response]"
  have 1: "demo_world [] (search_request ''q'') = Inr ?sr"
    by (simp add: demo_world_def serve_def search_request_def)
  have 2: "response_json ?sr = Inr (search_body ?ids)"
    by (simp add: response_json_def)
  have 3: "article_ids_of (search_body ?ids) = Inr ?ids"
    by (simp add: article_ids_of_def search_body_def)
  have 4: "length ?resps = length ?ids" by simp
  have 5: "\<forall>i<length ?ids. demo_world ([] @ search_request ''q'' # map detail_request (take i ?ids))
                            (detail_request (?ids ! i)) = Inr (?resps ! i)"
    by (simp add: demo_world_def serve_def detail_request_def less_Suc_eq)
  have "\<exists>recs. fst (search_for_usages demo_world ''q'' []) = Inr recs \<and> length recs = length ?ids \<and>
           (\<forall>i<length ?ids. recs ! i = article_info_of (?ids ! i) (?resps ! i) \<and> recs ! i \<noteq> [] \<and>
              subscript (recs ! i) ''pubmed_link''
                = Inr (''https://pubmed.ncbi.nlm.nih.gov/'' @ ?ids ! i @ ''/''))"
    using 1 2 3 4 5
    by (rule search_for_usages_one_record_per_identifier
          [where w = demo_world and log = "[]" and q = "''q''" and sr = ?sr
             and j = "search_body ?ids" and ids = ?ids and resps = ?resps])
  then obtain recs where r: "fst (search_for_usages demo_world ''q'' []) = Inr recs"
      "length recs = length ?ids"
      "\<forall>i<length ?ids. recs ! i = article_info_of (?ids ! i) (?resps ! i)"
    by blast
  from r(3) have "recs ! 0 = article_info_of ''123'' summary_response"
      "recs ! 1 = article_info_of ''7'' sparse_response"
    by (simp_all add: less_Suc_eq)
  with r(1,2) 1 3 show ?thesis by simp
qed

subsection \<open>C2: a missing field becomes the sentinel\<close>

text \<open>
  Claim C2. For every detail response, whatever its status and content: if the document holds
  no \<^verbatim>\<open>Item\<close> element named \<^verbatim>\<open>Title\<close>, \<^verbatim>\<open>EPubDate\<close>, \<^verbatim>\<open>DOI\<close> or \<^verbatim>\<open>PmcRefCount\<close>, the
  attribute \<^verbatim>\<open>title\<close>, \<^verbatim>\<open>publication_date\<close>, \<^verbatim>\<open>doi\<close> or \<^verbatim>\<open>pmc_ref_count\<close> of the record is
  \<^verbatim>\<open>"N/A"\<close>, and \<^verbatim>\<open>fetch_article_info\<close> returns a record instead of raising.
\<close>

theorem missing_fields_become_sentinel:
  assumes "w log (detail_request article_id) = Inr resp"
  shows "\<exists>r. fst (fetch_article_info w article_id log) = Inr r \<and>
           (\<not> has_item (soup resp) ''Title'' \<longrightarrow> subscript r ''title'' = Inr ''N/A'') \<and>
           (\<not> has_item (soup resp) ''EPubDate'' \<longrightarrow> subscript r ''publication_date'' = Inr ''N/A'') \<and>
           (\<not> has_item (soup resp) ''DOI'' \<longrightarrow> subscript r ''doi'' = Inr ''N/A'') \<and>
           (\<not> has_item (soup resp) ''PmcRefCount'' \<longrightarrow> subscript r ''pmc_ref_count'' = Inr ''N/A'')"
proof -
  have "fst (fetch_article_info w article_id log) = Inr (article_info_of article_id resp)"
    using assms by (simp add: fetch_article_info_Inr)
  then show ?thesis
    by (simp add: subscript_fields item_text_missing)
qed

theorem missing_fields_become_sentinel_witness:
  "error_status_world [search_request ''q''] (detail_request ''123'') = Inr server_error_response
   \<and> \<not> has_item (soup server_error_response) ''Title''
   \<and> \<not> has_item (soup server_error_response) ''EPubDate''
   \<and> \<not> has_item (soup server_error_response) ''DOI''
   \<and> \<not> has_item (soup server_error_response) ''PmcRefCount''
   \<and> (\<exists>r. fst (fetch_article_info error_status_world ''123'' [search_request ''q'']) = Inr r
         \<and> subscript r ''title'' = Inr ''N/A''
         \<and> subscript r ''publication_date'' = Inr ''N/A''
         \<and> subscript r ''doi'' = Inr ''N/A''
         \<and> subscript r ''pmc_ref_count'' = Inr ''N/A'')"
proof -
  have 1: "error_status_world [search_request ''q''] (detail_request ''123'') = Inr server_error_response"
    by (simp add: error_status_world_def serve_def detail_request_def)
  have 2: "\<not> has_item (soup server_error_response) ''Title''"
    "\<not> has_item (soup server_error_response) ''EPubDate''"
    "\<not> has_item (soup server_error_response) ''DOI''"
    "\<not> has_item (soup server_error_response) ''PmcRefCount''"
    by (simp_all add: has_item_def server_error_response_def)
  show ?thesis
    using missing_fields_become_sentinel
            [where w = error_status_world and log = "[search_request ''q'']"
               and article_id = "''123''" and resp = server_error_response] 1 2
    by auto
qed

subsection \<open>C3: no identifiers, header only\<close>

text \<open>
  Claim C3. When the search response lists no identifier, \<^verbatim>\<open>search_for_usages\<close> returns the
  empty sequence after the one search call, and \<^verbatim>\<open>format_top_usages_as_markdown\<close> of the empty
  sequence is exactly the header line and the separator line, with no data row.
\<close>

theorem no_identifiers_header_only:
  assumes "w log (search_request q) = Inr sr"
    and "response_json sr = Inr j"
    and "article_ids_of j = Inr []"
  shows "search_for_usages w q log = (Inr [], log @ [search_request q]) \<and>
         format_top_usages_as_markdown []
           = Inr ''| Title | Publication Date | DOI | PMC Reference Count | PubMed Link |\<newline>|-------|-----------------|-----|---------------------|-------------|\<newline>''"
proof
  have "search_for_usages w q log = fetch_loop w [] [] (log @ [search_request q])"
    using assms by (rule search_for_usages_step)
  then show "search_for_usages w q log = (Inr [], log @ [search_request q])" by simp
  show "format_top_usages_as_markdown []
           = Inr ''| Title | Publication Date | DOI | PMC Reference Count | PubMed Link |\<newline>|-------|-----------------|-----|---------------------|-------------|\<newline>''"
    by (simp add: format_top_usages_as_markdown_def header_line_def separator_line_def)
qed

theorem no_identifiers_header_only_witness:
  "empty_world [] (search_request ''MEPS'')
     = Inr \<lparr>status_code = 200, json_body = Some (search_body []), soup = []\<rparr>
   \<and> article_ids_of (search_body []) = Inr []
   \<and> search_for_usages empty_world ''MEPS'' [] = (Inr [], [search_request ''MEPS''])
   \<and> map_sum id (split_on CHR ''\<newline>'') (format_top_usages_as_markdown [])
        = Inr [header_line, separator_line, []]"
proof -
  let ?sr = "\<lparr>status_code = 200, json_body = Some (search_body []), soup = []\<rparr>"
  have 1: "empty_world [] (search_request ''MEPS'') = Inr ?sr"
    by (simp add: empty_world_def serve_def search_request_def)
  have 2: "response_json ?sr = Inr (search_body [])"
    by (simp add: response_json_def)
  have 3: "article_ids_of (search_body []) = Inr []"
    by (simp add: article_ids_of_def search_body_def)
  have 4: "split_on CHR ''\<newline>'' ((header_line @ ''\<newline>'') @ (separator_line @ ''\<newline>'')) = [header_line, separator_line, []]"
    by (simp add: split_on_append newline_header)
  from no_identifiers_header_only
         [where w = empty_world and log = "[]" and q = "''MEPS''" and sr = ?sr and j = "search_body []"]
       1 2 3
  have "search_for_usages empty_world ''MEPS'' [] = (Inr [], [] @ [search_request ''MEPS''])" by blast
  with 1 3 4 show ?thesis
    by (simp add: format_top_usages_as_markdown_def)
qed

subsection \<open>C4: the canonical link\<close>

text \<open>
  Claim C4. The link of a record is the fixed base URL, the identifier and a closing slash. It
  is the same for any two detail responses to the same identifier, whatever network and call
  history they come from; for the identifier \<^verbatim>\<open>"123"\<close> it is
  \<^verbatim>\<open>https://pubmed.ncbi.nlm.nih.gov/123/\<close>.
\<close>

theorem canonical_link_from_identifier_alone:
  assumes "w log (detail_request article_id) = Inr resp"
    and "w' log' (detail_request article_id) = Inr resp'"
  shows "\<exists>r r'. fst (fetch_article_info w article_id log) = Inr r \<and>
           fst (fetch_article_info w' article_id log') = Inr r' \<and>
           subscript r ''pubmed_link'' = Inr (''https://pubmed.ncbi.nlm.nih.gov/'' @ article_id @ ''/'') \<and>
           subscript r' ''pubmed_link'' = subscript r ''pubmed_link'' \<and>
           (article_id = ''123'' \<longrightarrow>
              subscript r ''pubmed_link'' = Inr ''https://pubmed.ncbi.nlm.nih.gov/123/'')"
proof -
  have "fst (fetch_article_info w article_id log) = Inr (article_info_of article_id resp)"
    using assms(1) by (simp add: fetch_article_info_Inr)
  moreover have "fst (fetch_article_info w' article_id log') = Inr (article_info_of article_id resp')"
    using assms(2) by (simp add: fetch_article_info_Inr)
  ultimately show ?thesis
    by (auto simp: subscript_link)
qed

theorem canonical_link_from_identifier_alone_witness:
  "demo_world [] (detail_request ''123'') = Inr summary_response
   \<and> error_status_world [search_request ''q''] (detail_request ''123'') = Inr server_error_response
   \<and> summary_response \<noteq> server_error_response
   \<and> (\<exists>r r'. fst (fetch_article_info demo_world ''123'' []) = Inr r
         \<and> fst (fetch_article_info error_status_world ''123'' [search_request ''q'']) = Inr r'
         \<and> subscript r ''pubmed_link'' = Inr ''https://pubmed.ncbi.nlm.nih.gov/123/''
         \<and> subscript r' ''pubmed_link'' = Inr ''https://pubmed.ncbi.nlm.nih.gov/123/'')"
proof -
  have 1: "demo_world [] (detail_request ''123'') = Inr summary_response"
    by (simp add: demo_world_def serve_def detail_request_def)
  have 2: "error_status_world [search_request ''q''] (detail_request ''123'') = Inr server_error_response"
    by (simp add: error_status_world_def serve_def detail_request_def)
  have 3: "summary_response \<noteq> server_error_response"
    by (simp add: summary_response_def server_error_response_def)
  from canonical_link_from_identifier_alone
         [where w = demo_world and log = "[]" and article_id = "''123''" and resp = summary_response
            and w' = error_status_world and log' = "[search_request ''q'']" and resp' = server_error_response]
       1 2
  obtain r r' where "fst (fetch_article_info demo_world ''123'' []) = Inr r"
    "fst (fetch_article_info error_status_world ''123'' [search_request ''q'']) = Inr r'"
    "subscript r' ''pubmed_link'' = subscript r ''pubmed_link''"
    "subscript r ''pubmed_link'' = Inr ''https://pubmed.ncbi.nlm.nih.gov/123/''"
    by blast
  with 1 2 3 show ?thesis by auto
qed

subsection \<open>C5: every emitted record is fully populated\<close>

text \<open>
  Claim C5. Every record \<^verbatim>\<open>fetch_article_info\<close> returns has exactly the five keys, each with a
  value; the four extracted values are the text of the matching item of the response or the
  sentinel \<^verbatim>\<open>"N/A"\<close>, and the link is built from the identifier and is never the sentinel. The
  same holds of every record in a sequence \<^verbatim>\<open>search_for_usages\<close> returns.
\<close>

theorem emitted_records_fully_populated:
  "(fst (fetch_article_info w article_id log) = Inr r \<longrightarrow>
      map fst r = field_names \<and> fully_populated r \<and>
      (\<forall>k \<in> set field_names. \<exists>v. subscript r k = Inr v) \<and>
      (\<exists>resp. w log (detail_request article_id) = Inr resp \<and>
         (\<exists>v. subscript r ''title'' = Inr v \<and> real_or_sentinel (soup resp) ''Title'' v) \<and>
         (\<exists>v. subscript r ''publication_date'' = Inr v \<and> real_or_sentinel (soup resp) ''EPubDate'' v) \<and>
         (\<exists>v. subscript r ''doi'' = Inr v \<and> real_or_sentinel (soup resp) ''DOI'' v) \<and>
         (\<exists>v. subscript r ''pmc_ref_count'' = Inr v \<and> real_or_sentinel (soup resp) ''PmcRefCount'' v)) \<and>
      subscript r ''pubmed_link'' = Inr (''https://pubmed.ncbi.nlm.nih.gov/'' @ article_id @ ''/'') \<and>
      subscript r ''pubmed_link'' \<noteq> Inr ''N/A'')
   \<and> (fst (search_for_usages w q log) = Inr recs \<longrightarrow>
      (\<forall>r \<in> set recs.
         map fst r = field_names \<and> fully_populated r \<and>
         (\<forall>k \<in> set field_names. \<exists>v. subscript r k = Inr v) \<and>
         (\<exists>a. subscript r ''pubmed_link'' = Inr (''https://pubmed.ncbi.nlm.nih.gov/'' @ a @ ''/'')) \<and>
         subscript r ''pubmed_link'' \<noteq> Inr ''N/A''))"
proof (intro conjI impI ballI)
  assume "fst (fetch_article_info w article_id log) = Inr r"
  then obtain resp where resp: "w log (detail_request article_id) = Inr resp"
    and r: "r = article_info_of article_id resp"
    using fetch_article_info_returns by blast
  show "map fst r = field_names" by (simp add: r article_info_of_keys)
  show "fully_populated r" by (simp add: r article_info_of_populated)
  show "\<exists>v. subscript r k = Inr v" if "k \<in> set field_names" for k
    using that by (simp add: r subscript_populated article_info_of_populated)
  show "subscript r ''pubmed_link'' = Inr (''https://pubmed.ncbi.nlm.nih.gov/'' @ article_id @ ''/'')"
    by (simp add: r subscript_link)
  show "subscript r ''pubmed_link'' \<noteq> Inr ''N/A''"
    by (simp add: r subscript_link)
  show "\<exists>resp. w log (detail_request article_id) = Inr resp \<and>
         (\<exists>v. subscript r ''title'' = Inr v \<and> real_or_sentinel (soup resp) ''Title'' v) \<and>
         (\<exists>v. subscript r ''publication_date'' = Inr v \<and> real_or_sentinel (soup resp) ''EPubDate'' v) \<and>
         (\<exists>v. subscript r ''doi'' = Inr v \<and> real_or_sentinel (soup resp) ''DOI'' v) \<and>
         (\<exists>v. subscript r ''pmc_ref_count'' = Inr v \<and> real_or_sentinel (soup resp) ''PmcRefCount'' v)"
    using resp by (simp add: r subscript_fields item_text_real_or_sentinel)
next
  fix r assume "fst (search_for_usages w q log) = Inr recs" and "r \<in> set recs"
  then obtain a resp where r: "r = article_info_of a resp"
    using search_for_usages_members by blast
  show "map fst r = field_names" by (simp add: r article_info_of_keys)
  show "fully_populated r" by (simp add: r article_info_of_populated)
  show "\<exists>v. subscript r k = Inr v" if "k \<in> set field_names" for k
    using that by (simp add: r subscript_populated article_info_of_populated)
  show "\<exists>a. subscript r ''pubmed_link'' = Inr (''https://pubmed.ncbi.nlm.nih.gov/'' @ a @ ''/'')"
    by (simp add: r subscript_link)
  show "subscript r ''pubmed_link'' \<noteq> Inr ''N/A''"
    by (simp add: r subscript_link)
qed

theorem emitted_records_fully_populated_witness:
  "fst (fetch_article_info demo_world ''123'' []) = Inr study_x
   \<and> fst (search_for_usages demo_world ''q'' []) = Inr [study_x, survey_y]
   \<and> map fst study_x = field_names \<and> fully_populated study_x
   \<and> subscript study_x ''pubmed_link'' = Inr ''https://pubmed.ncbi.nlm.nih.gov/123/''
   \<and> fully_populated survey_y
   \<and> subscript survey_y ''pubmed_link'' \<noteq> Inr ''N/A''"
proof -
  have 1: "fst (fetch_article_info demo_world ''123'' []) = Inr study_x"
    by (simp add: demo_123)
  have 2: "fst (search_for_usages demo_world ''q'' []) = Inr [study_x, survey_y]"
    by (rule demo_search)
  note t = emitted_records_fully_populated
             [where w = demo_world and article_id = "''123''" and log = "[]" and r = study_x
                and q = "''q''" and recs = "[study_x, survey_y]"]
  from t 1 have a: "map fst study_x = field_names" "fully_populated study_x"
    "subscript study_x ''pubmed_link'' = Inr (''https://pubmed.ncbi.nlm.nih.gov/'' @ ''123'' @ ''/'')"
    by blast+
  from t 2 have b: "\<forall>r \<in> set [study_x, survey_y].
      fully_populated r \<and> subscript r ''pubmed_link'' \<noteq> Inr ''N/A''"
    by blast
  from 1 2 a b show ?thesis by simp
qed

subsection \<open>C6: which failures are fatal\<close>

text \<open>
  Claim C6 says that a non-success HTTP response on the search call or on a detail call is
  fatal for the whole call. The code never reads the status: a detail response with status
  500 and no usable body yields a record of sentinels, and a search response with status 429
  whose body is a JSON error object yields the empty sequence.
\<close>

theorem non_success_response_not_fatal_counterexample:
  "error_status_world [search_request ''q''] (detail_request ''123'') = Inr server_error_response
   \<and> status_code server_error_response = 500
   \<and> search_for_usages error_status_world ''q'' []
       = (Inr [[(''title'', ''N/A''), (''publication_date'', ''N/A''), (''doi'', ''N/A''),
                (''pmc_ref_count'', ''N/A''),
                (''pubmed_link'', ''https://pubmed.ncbi.nlm.nih.gov/123/'')]],
          [search_request ''q'', detail_request ''123''])
   \<and> map_sum id status_code (rate_limited_world [] (search_request ''q'')) = Inr 429
   \<and> search_for_usages rate_limited_world ''q'' [] = (Inr [], [search_request ''q''])"
  by (simp add: eval_defs error_status_world_def rate_limited_world_def server_error_response_def)

text \<open>
  Claim C6 as amended. A failure of the transport (\<^verbatim>\<open>requests.get\<close> raising) is fatal and
  reaches the caller unchanged: on the search call no detail call is made; on a detail call,
  the earlier ones having been answered, the call ends there with that exception, without a
  retry, a skipped record or a partial result. The status code of a response has no effect on
  the outcome or on the calls made.
\<close>

theorem transport_failure_fatal_status_ignored:
  "(w log (search_request q) = Inl e \<longrightarrow>
      search_for_usages w q log = (Inl e, log @ [search_request q]))
   \<and> (w log (search_request q) = Inr sr \<and> response_json sr = Inr j \<and> article_ids_of j = Inr ids \<and>
       i < length ids \<and>
       (\<forall>k<i. \<exists>r. w (log @ search_request q # map detail_request (take k ids))
                      (detail_request (ids ! k)) = Inr r) \<and>
       w (log @ search_request q # map detail_request (take i ids)) (detail_request (ids ! i)) = Inl e
       \<longrightarrow> search_for_usages w q log
             = (Inl e, log @ search_request q # map detail_request (take (Suc i) ids)))
   \<and> search_for_usages (with_status f w) q log = search_for_usages w q log"
proof (intro conjI impI)
  assume "w log (search_request q) = Inl e"
  then show "search_for_usages w q log = (Inl e, log @ [search_request q])"
    by (simp add: search_for_usages_def requests_get_def)
next
  assume h: "w log (search_request q) = Inr sr \<and> response_json sr = Inr j \<and> article_ids_of j = Inr ids \<and>
       i < length ids \<and>
       (\<forall>k<i. \<exists>r. w (log @ search_request q # map detail_request (take k ids))
                      (detail_request (ids ! k)) = Inr r) \<and>
       w (log @ search_request q # map detail_request (take i ids)) (detail_request (ids ! i)) = Inl e"
  then have step: "search_for_usages w q log = fetch_loop w ids [] (log @ [search_request q])"
    by (simp add: search_for_usages_step)
  from h have i: "i < length ids" by simp
  from h have before: "\<forall>k<i. \<exists>r. w ((log @ [search_request q]) @ map detail_request (take k ids))
                      (detail_request (ids ! k)) = Inr r"
    by simp
  from h have at: "w ((log @ [search_request q]) @ map detail_request (take i ids))
                      (detail_request (ids ! i)) = Inl e"
    by simp
  from fetch_loop_first_failure[OF i before at, of "[]"]
  show "search_for_usages w q log
          = (Inl e, log @ search_request q # map detail_request (take (Suc i) ids))"
    by (simp add: step)
next
  show "search_for_usages (with_status f w) q log = search_for_usages w q log"
    by (rule search_for_usages_with_status)
qed


theorem transport_failure_fatal_status_ignored_witness:
  "offline_world [] (search_request ''q'') = Inl (RequestException ''name resolution failed'')
   \<and> search_for_usages offline_world ''q'' []
       = (Inl (RequestException ''name resolution failed''), [search_request ''q''])
   \<and> article_ids_of (search_body [''123'', ''7'', ''9'']) = Inr [''123'', ''7'', ''9'']
   \<and> refusing_world [search_request ''q''] (detail_request ''123'') = Inr summary_response
   \<and> refusing_world [search_request ''q'', detail_request ''123''] (detail_request ''7'')
       = Inl (RequestException ''connection reset'')
   \<and> search_for_usages refusing_world ''q'' []
       = (Inl (RequestException ''connection reset''),
          [search_request ''q'', detail_request ''123'', detail_request ''7''])"
proof -
  let ?sr = "\<lparr>status_code = 200, json_body = Some (search_body [''123'', ''7'', ''9'']), soup = []\<rparr>"
  let ?ids = "[''123'', ''7'', ''9'']"
  have 0: "offline_world [] (search_request ''q'') = Inl (RequestException ''name resolution failed'')"
    by (simp add: offline_world_def)
  have 1: "refusing_world [] (search_request ''q'') = Inr ?sr"
    by (simp add: refusing_world_def serve_def search_request_def)
  have 2: "response_json ?sr = Inr (search_body ?ids)"
    by (simp add: response_json_def)
  have 3: "article_ids_of (search_body ?ids) = Inr ?ids"
    by (simp add: article_ids_of_def search_body_def)
  have 4: "refusing_world [search_request ''q''] (detail_request ''123'') = Inr summary_response"
    by (simp add: refusing_world_def serve_def detail_request_def)
  have 5: "refusing_world [search_request ''q'', detail_request ''123''] (detail_request ''7'')
       = Inl (RequestException ''connection reset'')"
    by (simp add: refusing_world_def serve_def detail_request_def)
  have 6: "\<forall>k<Suc 0. \<exists>r. refusing_world ([] @ search_request ''q'' # map detail_request (take k ?ids))
                      (detail_request (?ids ! k)) = Inr r"
    using 4 by simp
  have 7: "refusing_world ([] @ search_request ''q'' # map detail_request (take (Suc 0) ?ids))
             (detail_request (?ids ! Suc 0)) = Inl (RequestException ''connection reset'')"
    using 5 by simp
  note a = transport_failure_fatal_status_ignored
             [where w = offline_world and log = "[]" and q = "''q''"
                and e = "RequestException ''name resolution failed''", THEN conjunct1, rule_format, OF 0]
  note b = transport_failure_fatal_status_ignored
             [where w = refusing_world and log = "[]" and q = "''q''" and sr = ?sr
                and j = "search_body ?ids" and ids = ?ids and i = "Suc 0"
                and e = "RequestException ''connection reset''",
              THEN conjunct2, THEN conjunct1, rule_format]
  have c: "search_for_usages refusing_world ''q'' []
       = (Inl (RequestException ''connection reset''),
          [] @ search_request ''q'' # map detail_request (take (Suc (Suc 0)) ?ids))"
    by (rule b) (use 1 2 3 6 7 in simp)
  from 0 a 3 4 5 c show ?thesis by simp
qed

subsection \<open>C7: the row of the synthetic record\<close>

text \<open>
  Claim C7 places the row of the record ``Study X'' on the second line of the table. The second
  line of every table is the separator line, which does not contain the row.
\<close>

theorem study_x_row_not_on_second_line_counterexample:
  "map_sum id (split_on CHR ''\<newline>'') (format_top_usages_as_markdown [study_x])
     = Inr [''| Title | Publication Date | DOI | PMC Reference Count | PubMed Link |'',
            ''|-------|-----------------|-----|---------------------|-------------|'',
            ''| Study X | 2021 | 10.1/xyz | 5 | [Link](https://pubmed.ncbi.nlm.nih.gov/123/) |'',
            '''']
   \<and> \<not> sublist ''| Study X | 2021 | 10.1/xyz | 5 | [Link](https://pubmed.ncbi.nlm.nih.gov/123/) |''
         ([''| Title | Publication Date | DOI | PMC Reference Count | PubMed Link |'',
           ''|-------|-----------------|-----|---------------------|-------------|'',
           ''| Study X | 2021 | 10.1/xyz | 5 | [Link](https://pubmed.ncbi.nlm.nih.gov/123/) |'',
           ''''] ! 1)"
  by (simp add: format_top_usages_as_markdown_def format_row_def subscript_def study_x_def
        header_line_def separator_line_def sublist_code)

text \<open>
  Claim C7 as amended. The table of the single record with title ``Study X'', date ``2021'',
  identifier ``10.1/xyz'', count ``5'' and link \<^verbatim>\<open>https://pubmed.ncbi.nlm.nih.gov/123/\<close> has the
  header on its first line, the separator on its second, and on its third line exactly
  \<^verbatim>\<open>| Study X | 2021 | 10.1/xyz | 5 | [Link](https://pubmed.ncbi.nlm.nih.gov/123/) |\<close>.
\<close>

theorem study_x_row_on_third_line:
  "map_sum id (split_on CHR ''\<newline>'') (format_top_usages_as_markdown [study_x])
     = Inr [''| Title | Publication Date | DOI | PMC Reference Count | PubMed Link |'',
            ''|-------|-----------------|-----|---------------------|-------------|'',
            ''| Study X | 2021 | 10.1/xyz | 5 | [Link](https://pubmed.ncbi.nlm.nih.gov/123/) |'',
            '''']
   \<and> sublist ''| Study X | 2021 | 10.1/xyz | 5 | [Link](https://pubmed.ncbi.nlm.nih.gov/123/) |''
         ([''| Title | Publication Date | DOI | PMC Reference Count | PubMed Link |'',
           ''|-------|-----------------|-----|---------------------|-------------|'',
           ''| Study X | 2021 | 10.1/xyz | 5 | [Link](https://pubmed.ncbi.nlm.nih.gov/123/) |'',
           ''''] ! 2)"
  by (simp add: format_top_usages_as_markdown_def format_row_def subscript_def study_x_def
        header_line_def separator_line_def)

subsection \<open>C8: the calls made, and the bound of twenty\<close>

text \<open>
  Claim C8 says that the search call is followed by at most 20 detail calls and that at most 20
  records are returned. The code asks for 20 identifiers (\<^verbatim>\<open>retmax\<close>) and then iterates over
  whatever list the response holds, without truncating it: a response that lists 21
  identifiers leads to 21 detail calls and 21 records.
\<close>

theorem at_most_twenty_records_counterexample:
  "map_of (params (search_request ''q'')) ''retmax'' = Some (PInt 20)
   \<and> map_sum id length (fst (search_for_usages generous_world ''q'' [])) = Inr 21
   \<and> length (snd (search_for_usages generous_world ''q'' [])) = 22"
  by (simp add: eval_defs generous_world_def twenty_one_ids_def sparse_response_def sparse_xml_def)


text \<open>
  Claim C8 as amended. Every call of \<^verbatim>\<open>search_for_usages\<close> makes one search call, carrying
  \<^verbatim>\<open>retmax\<close> 20, and after it detail calls only, for an initial part of the identifier list of
  the search response, in the order of the list. When it returns, there has been exactly one
  detail call per identifier and there are as many records as identifiers; hence at most 20
  records whenever the search response lists at most 20 identifiers.
\<close>

theorem one_search_call_then_one_detail_call_per_identifier:
  "map_of (params (search_request q)) ''retmax'' = Some (PInt 20) \<and>
   (\<exists>ds. snd (search_for_usages w q log) = log @ search_request q # map detail_request ds \<and>
      (\<forall>sr j ids. w log (search_request q) = Inr sr \<and> response_json sr = Inr j \<and>
          article_ids_of j = Inr ids \<longrightarrow> prefix ds ids) \<and>
      (\<forall>recs. fst (search_for_usages w q log) = Inr recs \<longrightarrow>
         (\<exists>sr j. w log (search_request q) = Inr sr \<and> response_json sr = Inr j \<and>
            article_ids_of j = Inr ds) \<and>
         length recs = length ds \<and>
         (length ds \<le> 20 \<longrightarrow> length recs \<le> 20)))"
proof
  show "map_of (params (search_request q)) ''retmax'' = Some (PInt 20)"
    by (simp add: search_request_def)
next
  let ?goal = "\<lambda>ds. snd (search_for_usages w q log) = log @ search_request q # map detail_request ds \<and>
      (\<forall>sr j ids. w log (search_request q) = Inr sr \<and> response_json sr = Inr j \<and>
          article_ids_of j = Inr ids \<longrightarrow> prefix ds ids) \<and>
      (\<forall>recs. fst (search_for_usages w q log) = Inr recs \<longrightarrow>
         (\<exists>sr j. w log (search_request q) = Inr sr \<and> response_json sr = Inr j \<and>
            article_ids_of j = Inr ds) \<and>
         length recs = length ds \<and>
         (length ds \<le> 20 \<longrightarrow> length recs \<le> 20))"
  show "\<exists>ds. ?goal ds"
  proof (cases "w log (search_request q)")
    case (Inl e)
    then have "search_for_usages w q log = (Inl e, log @ [search_request q])"
      by (simp add: search_for_usages_def requests_get_def)
    with Inl have "?goal []" by simp
    then show ?thesis ..
  next
    case sr: (Inr sr)
    show ?thesis
    proof (cases "response_json sr")
      case (Inl e)
      with sr have "search_for_usages w q log = (Inl e, log @ [search_request q])"
        by (simp add: search_for_usages_def requests_get_def)
      with sr Inl have "?goal []" by simp
      then show ?thesis ..
    next
      case j: (Inr j)
      show ?thesis
      proof (cases "article_ids_of j")
        case (Inl e)
        with sr j have "search_for_usages w q log = (Inl e, log @ [search_request q])"
          by (simp add: search_for_usages_def requests_get_def)
        with sr j Inl have "?goal []" by simp
        then show ?thesis ..
      next
        case ids: (Inr ids)
        have step: "search_for_usages w q log = fetch_loop w ids [] (log @ [search_request q])"
          using sr j ids by (rule search_for_usages_step)
        from fetch_loop_log[of ids w "[]" "log @ [search_request q]"]
        obtain k where k: "k \<le> length ids"
          "snd (fetch_loop w ids [] (log @ [search_request q]))
             = (log @ [search_request q]) @ map detail_request (take k ids)"
          "\<forall>recs. fst (fetch_loop w ids [] (log @ [search_request q])) = Inr recs \<longrightarrow>
             k = length ids \<and> length recs = length ([]::citation list) + length ids"
          by blast
        have "?goal (take k ids)"
          using sr j ids k by (auto simp: step take_is_prefix)
        then show ?thesis ..
      qed
    qed
  qed
qed

theorem one_search_call_then_one_detail_call_per_identifier_witness:
  "fst (search_for_usages demo_world ''q'' []) = Inr [study_x, survey_y]
   \<and> snd (search_for_usages demo_world ''q'' [])
       = [search_request ''q'', detail_request ''123'', detail_request ''7'']
   \<and> length [study_x, survey_y] \<le> 20"
proof -
  let ?sr = "\<lparr>status_code = 200, json_body = Some (search_body [''123'', ''7'']), soup = []\<rparr>"
  have 1: "demo_world [] (search_request ''q'') = Inr ?sr"
    by (simp add: demo_world_def serve_def search_request_def)
  have 2: "response_json ?sr = Inr (search_body [''123'', ''7''])"
    by (simp add: response_json_def)
  have 3: "article_ids_of (search_body [''123'', ''7'']) = Inr [''123'', ''7'']"
    by (simp add: article_ids_of_def search_body_def)
  have 4: "fst (search_for_usages demo_world ''q'' []) = Inr [study_x, survey_y]"
    by (rule demo_search)
  from one_search_call_then_one_detail_call_per_identifier
         [where w = demo_world and q = "''q''" and log = "[]"]
  obtain ds where ds:
    "snd (search_for_usages demo_world ''q'' []) = [] @ search_request ''q'' # map detail_request ds"
    "\<forall>recs. fst (search_for_usages demo_world ''q'' []) = Inr recs \<longrightarrow>
         (\<exists>sr j. demo_world [] (search_request ''q'') = Inr sr \<and> response_json sr = Inr j \<and>
            article_ids_of j = Inr ds) \<and>
         length recs = length ds \<and>
         (length ds \<le> 20 \<longrightarrow> length recs \<le> 20)"
    by blast
  from ds(2) 4 have
    "\<exists>sr j. demo_world [] (search_request ''q'') = Inr sr \<and> response_json sr = Inr j \<and>
            article_ids_of j = Inr ds"
    and len: "length [study_x, survey_y] = length ds"
    and bound: "length ds \<le> 20 \<longrightarrow> length [study_x, survey_y] \<le> 20"
    by blast+
  with 1 2 3 have "ds = [''123'', ''7'']" by auto
  with ds(1) 4 bound show ?thesis by simp
qed

subsection \<open>C9: rendering is deterministic\<close>

text \<open>
  Claim C9. In every program state, a call of \<^verbatim>\<open>format_top_usages_as_markdown\<close> on a reference
  leaves the state as it was: it changes neither the sequence nor a record and makes no
  network call. A second call on the same reference therefore returns the same outcome as
  the first, byte for byte. More generally the outcome is determined by the content of the
  sequence alone: two states that hold the same sequence, at whatever addresses and after
  whatever calls, give the same outcome, and for a list of records it is the table of that
  list of records.
\<close>

theorem render_twice_identical:
  "snd (format_top_usages_as_markdown_in p s) = s
   \<and> fst (format_top_usages_as_markdown_in p (snd (format_top_usages_as_markdown_in p s)))
       = fst (format_top_usages_as_markdown_in p s)
   \<and> (sequence_at s' p' = sequence_at s p \<longrightarrow>
        fst (format_top_usages_as_markdown_in p' s') = fst (format_top_usages_as_markdown_in p s))
   \<and> (sequence_at s p = Inl (map PyDict rs) \<longrightarrow>
        fst (format_top_usages_as_markdown_in p s) = format_top_usages_as_markdown rs)"
proof (intro conjI impI)
  show "snd (format_top_usages_as_markdown_in p s) = s"
    by (rule format_in_state)
  show "fst (format_top_usages_as_markdown_in p (snd (format_top_usages_as_markdown_in p s)))
       = fst (format_top_usages_as_markdown_in p s)"
    by (simp only: format_in_state)
  show "fst (format_top_usages_as_markdown_in p' s') = fst (format_top_usages_as_markdown_in p s)"
    if "sequence_at s' p' = sequence_at s p"
    using that by (rule format_in_content)
  show "fst (format_top_usages_as_markdown_in p s) = format_top_usages_as_markdown rs"
    if "sequence_at s p = Inl (map PyDict rs)"
    using that by (rule format_in_dicts)
qed

theorem render_twice_identical_witness:
  "sequence_at state_elsewhere 5 = sequence_at state_after_search 0
   \<and> sequence_at state_after_search 0 = Inl (map PyDict [study_x, survey_y])
   \<and> requests state_elsewhere \<noteq> requests state_after_search
   \<and> fst (format_top_usages_as_markdown_in 5 state_elsewhere)
       = fst (format_top_usages_as_markdown_in 0 state_after_search)
   \<and> fst (format_top_usages_as_markdown_in 0 state_after_search)
       = format_top_usages_as_markdown [study_x, survey_y]
   \<and> snd (format_top_usages_as_markdown_in 0 state_after_search) = state_after_search
   \<and> fst (format_top_usages_as_markdown_in 0 (snd (format_top_usages_as_markdown_in 0 state_after_search)))
       = fst (format_top_usages_as_markdown_in 0 state_after_search)"
proof -
  have 1: "sequence_at state_elsewhere 5 = sequence_at state_after_search 0"
    by (simp add: sequence_at_def state_elsewhere_def state_after_search_def)
  have 2: "sequence_at state_after_search 0 = Inl (map PyDict [study_x, survey_y])"
    by (simp add: sequence_at_def state_after_search_def)
  have 3: "requests state_elsewhere \<noteq> requests state_after_search"
    by (simp add: state_elsewhere_def state_after_search_def)
  note t = render_twice_identical
             [where p = 0 and s = state_after_search and p' = 5 and s' = state_elsewhere
                and rs = "[study_x, survey_y]"]
  from t 1 have 4: "fst (format_top_usages_as_markdown_in 5 state_elsewhere)
       = fst (format_top_usages_as_markdown_in 0 state_after_search)"
    by blast
  from t 2 have 5: "fst (format_top_usages_as_markdown_in 0 state_after_search)
       = format_top_usages_as_markdown [study_x, survey_y]"
    by blast
  from t have 6: "snd (format_top_usages_as_markdown_in 0 state_after_search) = state_after_search"
    "fst (format_top_usages_as_markdown_in 0 (snd (format_top_usages_as_markdown_in 0 state_after_search)))
       = fst (format_top_usages_as_markdown_in 0 state_after_search)"
    by blast+
  from 1 2 3 4 5 6 show ?thesis by blast
qed

subsection \<open>C10: the shape of the table\<close>

text \<open>
  Claim C10 says that the table of \<open>N\<close> fully-populated records has exactly \<open>2 + N\<close> lines and
  that each data row has five cells. The values are copied into the row as they are, so a
  title that contains a newline breaks its row in two: one record, four lines.
\<close>

theorem two_line_title_counterexample:
  "fully_populated two_line_title
   \<and> map_sum id (split_on CHR ''\<newline>'') (format_top_usages_as_markdown [two_line_title])
       = Inr [''| Title | Publication Date | DOI | PMC Reference Count | PubMed Link |'',
              ''|-------|-----------------|-----|---------------------|-------------|'',
              ''| Study'',
              ''X | 2021 | 10.1/xyz | 5 | [Link](https://pubmed.ncbi.nlm.nih.gov/123/) |'',
              '''']
   \<and> length [''| Title | Publication Date | DOI | PMC Reference Count | PubMed Link |'',
              ''|-------|-----------------|-----|---------------------|-------------|'',
              ''| Study'',
              ''X | 2021 | 10.1/xyz | 5 | [Link](https://pubmed.ncbi.nlm.nih.gov/123/) |'',
              ''''] \<noteq> 2 + length [two_line_title] + 1"
  by (simp add: format_top_usages_as_markdown_def format_row_def subscript_def two_line_title_def
        header_line_def separator_line_def fully_populated_def field_names_def)

text \<open>
  Claim C10 as amended. For \<open>N\<close> fully-populated records the result is the header line, the
  separator line and one row per record in input order, each ended by a newline, so the text
  ends with a newline; every row is built from five cells, the last of them
  \<^verbatim>\<open>[Link](<pubmed_link>)\<close>. When no value contains a newline the text has exactly \<open>2 + N\<close>
  lines, and a row whose values contain no \<^verbatim>\<open>|\<close> splits at the bars into exactly its five cells.
\<close>

theorem table_lines_and_cells:
  assumes "\<forall>r \<in> set rs. fully_populated r"
  shows "\<exists>out. format_top_usages_as_markdown rs = Inr out \<and>
           out = header_line @ ''\<newline>'' @ separator_line @ ''\<newline>''
                   @ concat (map (\<lambda>r. data_row r @ ''\<newline>'') rs) \<and>
           out \<noteq> [] \<and> last out = CHR ''\<newline>'' \<and>
           ((\<forall>r \<in> set rs. \<forall>k \<in> set field_names. CHR ''\<newline>'' \<notin> set (the (map_of r k))) \<longrightarrow>
              split_on CHR ''\<newline>'' out = header_line # separator_line # map data_row rs @ ['''']) \<and>
           (\<forall>r \<in> set rs. length (cells r) = 5 \<and>
              cells r ! 4 = '' [Link]('' @ the (map_of r ''pubmed_link'') @ '') '' \<and>
              ((\<forall>k \<in> set field_names. CHR ''|'' \<notin> set (the (map_of r k))) \<longrightarrow>
                 split_on CHR ''|'' (data_row r) = [''''] @ cells r @ ['''']))"
proof -
  let ?out = "header_line @ ''\<newline>'' @ separator_line @ ''\<newline>''
                   @ concat (map (\<lambda>r. data_row r @ ''\<newline>'') rs)"
  have out: "format_top_usages_as_markdown rs = Inr ?out"
    using assms by (simp add: format_top_usages_as_markdown_def format_loop_populated)
  have ne: "?out \<noteq> []" by (simp add: header_line_def)
  have lst: "last ?out = CHR ''\<newline>''"
  proof (cases rs rule: rev_cases)
    case Nil
    then show ?thesis by simp
  next
    case (snoc rs' r)
    then show ?thesis by simp
  qed
  have lines: "split_on CHR ''\<newline>'' ?out = header_line # separator_line # map data_row rs @ ['''']"
    if "\<forall>r \<in> set rs. \<forall>k \<in> set field_names. CHR ''\<newline>'' \<notin> set (the (map_of r k))"
  proof -
    from that have "\<forall>r \<in> set rs. CHR ''\<newline>'' \<notin> set (data_row r)"
      by (simp add: newline_in_data_row)
    then have "split_on CHR ''\<newline>'' (concat (map (\<lambda>r. data_row r @ ''\<newline>'') rs)) = map data_row rs @ [[]]"
      by (rule split_lines_rows)
    then show ?thesis
      by (simp add: split_on_append newline_header)
  qed
  have cs: "length (cells r) = 5 \<and>
              cells r ! 4 = '' [Link]('' @ the (map_of r ''pubmed_link'') @ '') '' \<and>
              ((\<forall>k \<in> set field_names. CHR ''|'' \<notin> set (the (map_of r k))) \<longrightarrow>
                 split_on CHR ''|'' (data_row r) = [''''] @ cells r @ [''''])" for r
    using split_cells[of r] by (simp add: cells_def)
  from out ne lst lines cs show ?thesis by blast
qed

theorem table_lines_and_cells_witness:
  "fully_populated study_x \<and> fully_populated survey_y
   \<and> (\<exists>out. format_top_usages_as_markdown [study_x, survey_y] = Inr out
         \<and> split_on CHR ''\<newline>'' out
             = [''| Title | Publication Date | DOI | PMC Reference Count | PubMed Link |'',
                ''|-------|-----------------|-----|---------------------|-------------|'',
                ''| Study X | 2021 | 10.1/xyz | 5 | [Link](https://pubmed.ncbi.nlm.nih.gov/123/) |'',
                ''| Survey Y | N/A | N/A | N/A | [Link](https://pubmed.ncbi.nlm.nih.gov/7/) |'',
                ''''])
   \<and> split_on CHR ''|'' (data_row study_x)
       = ['''', '' Study X '', '' 2021 '', '' 10.1/xyz '', '' 5 '',
          '' [Link](https://pubmed.ncbi.nlm.nih.gov/123/) '', '''']"
proof -
  have pop: "\<forall>r \<in> set [study_x, survey_y]. fully_populated r"
    by (simp add: fully_populated_def field_names_def study_x_def survey_y_def)
  have nl: "\<forall>r \<in> set [study_x, survey_y]. \<forall>k \<in> set field_names.
              CHR ''\<newline>'' \<notin> set (the (map_of r k))"
    by (simp add: field_names_def study_x_def survey_y_def)
  have bar: "\<forall>k \<in> set field_names. CHR ''|'' \<notin> set (the (map_of study_x k))"
    by (simp add: field_names_def study_x_def)
  from table_lines_and_cells[OF pop] obtain out where
    out: "format_top_usages_as_markdown [study_x, survey_y] = Inr out"
    and lines: "(\<forall>r \<in> set [study_x, survey_y]. \<forall>k \<in> set field_names.
                   CHR ''\<newline>'' \<notin> set (the (map_of r k))) \<longrightarrow>
                split_on CHR ''\<newline>'' out
                  = header_line # separator_line # map data_row [study_x, survey_y] @ ['''']"
    and cs: "\<forall>r \<in> set [study_x, survey_y].
               (\<forall>k \<in> set field_names. CHR ''|'' \<notin> set (the (map_of r k))) \<longrightarrow>
                 split_on CHR ''|'' (data_row r) = [''''] @ cells r @ ['''']"
    by blast
  from lines nl have
    "split_on CHR ''\<newline>'' out
       = header_line # separator_line # map data_row [study_x, survey_y] @ ['''']"
    by blast
  then have l: "split_on CHR ''\<newline>'' out
             = [''| Title | Publication Date | DOI | PMC Reference Count | PubMed Link |'',
                ''|-------|-----------------|-----|---------------------|-------------|'',
                ''| Study X | 2021 | 10.1/xyz | 5 | [Link](https://pubmed.ncbi.nlm.nih.gov/123/) |'',
                ''| Survey Y | N/A | N/A | N/A | [Link](https://pubmed.ncbi.nlm.nih.gov/7/) |'',
                '''']"
    by (simp add: header_line_def separator_line_def data_row_def cells_def study_x_def survey_y_def)
  from cs bar have "split_on CHR ''|'' (data_row study_x) = [''''] @ cells study_x @ ['''']"
    by simp
  then have c: "split_on CHR ''|'' (data_row study_x)
       = ['''', '' Study X '', '' 2021 '', '' 10.1/xyz '', '' 5 '',
          '' [Link](https://pubmed.ncbi.nlm.nih.gov/123/) '', '''']"
    by (simp add: cells_def study_x_def)
  from pop have "fully_populated study_x" "fully_populated survey_y" by simp_all
  with out l c show ?thesis by blast
qed

end
